theory Spec2Isabelle
  imports Main "HOL-Library.Word"
begin

unbundle bit_operations_syntax

section \<open>Serial frontend: the wire packet\<close>

type_synonym u8 = "8 word"
type_synonym u16 = "16 word"
type_synonym u32 = "32 word"

text \<open>
  \<^verbatim>\<open>PACKET_HEADER\<close> holds a fixed array \<^verbatim>\<open>vByte\<close> whose \<^verbatim>\<open>sizeof\<close> is the bound of
  the loop in \<^verbatim>\<open>compare_packet_header\<close>. The array has three bytes (the packets of the unit
  test begin and end with three signature bytes), so it is a constructor of three bytes
  read by index.
\<close>

datatype PACKET_HEADER = PACKET_HEADER u8 u8 u8

fun vByte :: "PACKET_HEADER \<Rightarrow> nat \<Rightarrow> u8" where
  "vByte (PACKET_HEADER b0 b1 b2) i = (if i = 0 then b0 else if i = 1 then b1 else b2)"

definition sizeof_vByte :: nat where
  "sizeof_vByte = 3"

text \<open>
  Modelled from the spec: \<^verbatim>\<open>sensei_serial_protocol.h\<close>, which declares the packet and
  its constants, is not among the sources. The packet is the 64-byte unit of the unit
  test, whose literal starts with \<^verbatim>\<open>01 02 03\<close> and ends with \<^verbatim>\<open>04 05 06\<close>; the fixed
  fields take 15 bytes, which leaves 49 for the payload.
\<close>

definition SENSEI_PAYLOAD_LENGTH :: nat where
  "SENSEI_PAYLOAD_LENGTH = 49"

definition SENSEI_LENGTH_DATA_PACKET :: int where
  "SENSEI_LENGTH_DATA_PACKET = 64"

definition START_SIGNATURE :: PACKET_HEADER where
  "START_SIGNATURE = PACKET_HEADER 1 2 3"

definition STOP_SIGNATURE :: PACKET_HEADER where
  "STOP_SIGNATURE = PACKET_HEADER 4 5 6"

record sSenseiDataPacket =
  start_header :: PACKET_HEADER
  cmd :: u8
  sub_cmd :: u8
  payload :: "u8 list"
  continuation :: u8
  timestamp :: u32
  crc :: u16
  stop_header :: PACKET_HEADER

text \<open>A packet whose payload array has its declared size.\<close>

definition packet_ok :: "sSenseiDataPacket \<Rightarrow> bool" where
  "packet_ok p = (length (payload p) = SENSEI_PAYLOAD_LENGTH)"

text \<open>The bytes of a 32-bit and of a 16-bit field, as they lie in memory (little endian).\<close>

definition bytes_u32 :: "u32 \<Rightarrow> u8 list" where
  "bytes_u32 w = [ucast w, ucast (drop_bit 8 w), ucast (drop_bit 16 w), ucast (drop_bit 24 w)]"

definition bytes_u16 :: "u16 \<Rightarrow> u8 list" where
  "bytes_u16 w = [ucast w, ucast (drop_bit 8 w)]"

definition u32_of_bytes :: "u8 list \<Rightarrow> u32" where
  "u32_of_bytes bs = ucast (bs ! 0) OR push_bit 8 (ucast (bs ! 1))
                     OR push_bit 16 (ucast (bs ! 2)) OR push_bit 24 (ucast (bs ! 3))"

definition u16_of_bytes :: "u8 list \<Rightarrow> u16" where
  "u16_of_bytes bs = ucast (bs ! 0) OR push_bit 8 (ucast (bs ! 1))"

text \<open>
  \<^verbatim>\<open>calculate_crc\<close> reads \<^verbatim>\<open>packet->payload + i\<close> for \<^verbatim>\<open>i\<close> up to
  \<^verbatim>\<open>SENSEI_PAYLOAD_LENGTH + sizeof(continuation) + sizeof(timestamp)\<close>: in the packed
  struct the payload is followed by the continuation byte and the four bytes of the
  timestamp. \<open>from_payload p\<close> is that stretch of memory.
\<close>

definition from_payload :: "sSenseiDataPacket \<Rightarrow> u8 list" where
  "from_payload p = payload p @ [continuation p] @ bytes_u32 (timestamp p)"

subsection \<open>compare_packet_header, calculate_crc, verify_message\<close>

text \<open>
  The bytes are promoted to \<^verbatim>\<open>int\<close> before the subtraction; the sum of three
  differences of bytes is far from the bounds of a 32-bit \<^verbatim>\<open>int\<close>.
\<close>

definition compare_packet_header :: "PACKET_HEADER \<Rightarrow> PACKET_HEADER \<Rightarrow> int" where
  "compare_packet_header lhv rhv =
     fold (\<lambda>i diff. diff + (uint (vByte lhv i) - uint (vByte rhv i))) [0..<sizeof_vByte] 0"

text \<open>
  \<^verbatim>\<open>uint16_t sum\<close>: every assignment truncates to 16 bits, which is addition of
  16-bit words.
\<close>

definition calculate_crc :: "sSenseiDataPacket \<Rightarrow> u16" where
  "calculate_crc packet =
     fold (\<lambda>i sum. sum + ucast (from_payload packet ! i))
          [0..<SENSEI_PAYLOAD_LENGTH + 1 + 4]
          (ucast (cmd packet) + ucast (sub_cmd packet))"

text \<open>The two header tests are joined by \<^verbatim>\<open>||\<close>, which tests the stop header only when the
  start header passed.\<close>

definition verify_message :: "sSenseiDataPacket \<Rightarrow> bool" where
  "verify_message packet =
     (if compare_packet_header (start_header packet) START_SIGNATURE \<noteq> 0 then False
      else if compare_packet_header (stop_header packet) STOP_SIGNATURE \<noteq> 0 then False
      else if calculate_crc packet \<noteq> crc packet then False
      else True)"

text \<open>
  The reader casts its receive buffer to a packet (\<^verbatim>\<open>reinterpret_cast\<close>). With the
  packed layout above: start header at 0, \<^verbatim>\<open>cmd\<close> at 3, \<^verbatim>\<open>sub_cmd\<close> at 4, the payload
  at 5, then continuation, timestamp, crc and the stop header.
\<close>

definition packet_of_buffer :: "u8 list \<Rightarrow> sSenseiDataPacket" where
  "packet_of_buffer b =
     \<lparr> start_header = PACKET_HEADER (b ! 0) (b ! 1) (b ! 2),
       cmd = b ! 3,
       sub_cmd = b ! 4,
       payload = take SENSEI_PAYLOAD_LENGTH (drop 5 b),
       continuation = b ! (5 + SENSEI_PAYLOAD_LENGTH),
       timestamp = u32_of_bytes (take 4 (drop (6 + SENSEI_PAYLOAD_LENGTH) b)),
       crc = u16_of_bytes (take 2 (drop (10 + SENSEI_PAYLOAD_LENGTH) b)),
       stop_header = PACKET_HEADER (b ! (12 + SENSEI_PAYLOAD_LENGTH))
                                   (b ! (13 + SENSEI_PAYLOAD_LENGTH))
                                   (b ! (14 + SENSEI_PAYLOAD_LENGTH)) \<rparr>"

text \<open>The packet of the unit test \<^verbatim>\<open>test_verify_message\<close>.\<close>

definition test_msg :: "u8 list" where
  "test_msg = [0x1, 0x2, 0x3, 0xff, 0x0, 0x0, 0x0, 0x0,
               0x0, 0x8c, 0x3, 0x0, 0x0, 0x64, 0x1, 0x0,
               0x0, 0x0, 0x0, 0x0, 0x0, 0x0, 0x0, 0x0,
               0x0, 0x0, 0x0, 0x0, 0x0, 0x0, 0x0, 0x0,
               0x0, 0x0, 0x0, 0x0, 0x0, 0x0, 0x0, 0x0,
               0x0, 0x0, 0x0, 0x0, 0x0, 0x0, 0x0, 0x0,
               0x0, 0x0, 0x0, 0x0, 0x0, 0x0, 0x0, 0xe8,
               0xe2, 0xf6, 0x10, 0xc3, 0x4, 0x4, 0x5, 0x6]"

text \<open>The same packet with the first two bytes of its start header exchanged.\<close>

definition swapped_start_msg :: "u8 list" where
  "swapped_start_msg = test_msg[0 := 0x2, 1 := 0x1]"

section \<open>Serial frontend: MessageConcatenator\<close>

text \<open>
  \<^verbatim>\<open>_storage\<close> is an array of \<^verbatim>\<open>2 * SENSEI_PAYLOAD_LENGTH\<close> bytes that the constructor
  leaves uninitialised; \<^verbatim>\<open>_waiting\<close> starts as false.
\<close>

record MessageConcatenator =
  waiting :: bool
  storage :: "u8 list"

definition concatenator_ok :: "MessageConcatenator \<Rightarrow> bool" where
  "concatenator_ok mc = (length (storage mc) = SENSEI_PAYLOAD_LENGTH * 2)"

text \<open>\<^verbatim>\<open>memcpy(dst + off, src, n)\<close> on arrays that hold the bytes touched.\<close>

definition memcpy :: "u8 list \<Rightarrow> nat \<Rightarrow> u8 list \<Rightarrow> nat \<Rightarrow> u8 list" where
  "memcpy dst off src n = take off dst @ take n src @ drop (off + n) dst"

text \<open>
  \<^verbatim>\<open>add\<close> returns a pointer: \<^verbatim>\<open>nullptr\<close> is \<open>None\<close>, and a pointer to an array is the
  array's contents at the return (the payload of the packet, or the whole of
  \<^verbatim>\<open>_storage\<close>). The second component is the concatenator after the call.
\<close>

definition add :: "MessageConcatenator \<Rightarrow> sSenseiDataPacket
                   \<Rightarrow> u8 list option \<times> MessageConcatenator" where
  "add this packet =
     (if \<not> waiting this \<and> continuation packet = 0 then (Some (payload packet), this)
      else if continuation packet \<noteq> 0 then
        (None, this\<lparr> storage := memcpy (storage this) 0 (payload packet) SENSEI_PAYLOAD_LENGTH,
                     waiting := True \<rparr>)
      else if waiting this \<and> continuation packet = 0 then
        (let storage' = memcpy (storage this) SENSEI_PAYLOAD_LENGTH (payload packet)
                               SENSEI_PAYLOAD_LENGTH
         in (Some storage', this\<lparr> storage := storage', waiting := False \<rparr>))
      else (None, this))"

section \<open>Commands\<close>

text \<open>
  Modelled from the spec: the command classes (\<^verbatim>\<open>base_command.h\<close>) are not among the
  sources. The tags are the spec's list, one class per tag, each with the sensor index,
  the timestamp and the payload of its tag. A \<^verbatim>\<open>float\<close> payload is carried as its 32 bits.
  \<open>PinType_other\<close> stands for a value of the enum that is none of its enumerators.
\<close>

type_synonym f32 = "32 word"

datatype PinType = DISABLED | DIGITAL_INPUT | ANALOG_INPUT | IMU_INPUT | PinType_other int

datatype SendingMode = ON_VALUE_CHANGED | CONTINUOUS | ON_PRESS | ON_RELEASE

datatype CommandTag =
    SET_PIN_TYPE | SET_SENDING_MODE | SET_SENDING_DELTA_TICKS | SET_SAMPLING_RATE
  | SET_ADC_BIT_RESOLUTION | SET_LOWPASS_FILTER_ORDER | SET_LOWPASS_CUTOFF
  | SET_SLIDER_THRESHOLD | SET_INVERT_ENABLED | SET_INPUT_SCALE_RANGE | SET_OUTPUT_RANGE
  | SEND_DIGITAL_PIN_VALUE | ENABLE_SENDING | SET_MUTE_STATUS | VERIFY_ACKS | RELOAD_CONFIG

datatype Command =
    SetPinTypeCommand int u32 PinType
  | SetSendingModeCommand int u32 SendingMode
  | SetSendingDeltaTicksCommand int u32 u32
  | SetSamplingRateCommand int u32 f32
  | SetADCBitResolutionCommand int u32 u8
  | SetLowpassFilterOrderCommand int u32 u8
  | SetLowpassCutoffCommand int u32 f32
  | SetSliderThresholdCommand int u32 u16
  | SetInvertEnabledCommand int u32 bool
  | SetInputScaleRangeCommand int u32 f32 f32
  | SetOutputRangeCommand int u32 f32 f32
  | SendDigitalPinValueCommand int u32 u8
  | EnableSendingCommand int u32 bool
  | SetMuteStatusCommand int u32 bool
  | VerifyAcksCommand int u32 bool
  | ReloadConfigCommand int u32

text \<open>\<^verbatim>\<open>tag()\<close> (\<^verbatim>\<open>type()\<close> in the mapping processor) and \<^verbatim>\<open>index()\<close>
  (\<^verbatim>\<open>sensor_index()\<close> in the serial frontend).\<close>

fun tag :: "Command \<Rightarrow> CommandTag" where
  "tag (SetPinTypeCommand _ _ _) = SET_PIN_TYPE"
| "tag (SetSendingModeCommand _ _ _) = SET_SENDING_MODE"
| "tag (SetSendingDeltaTicksCommand _ _ _) = SET_SENDING_DELTA_TICKS"
| "tag (SetSamplingRateCommand _ _ _) = SET_SAMPLING_RATE"
| "tag (SetADCBitResolutionCommand _ _ _) = SET_ADC_BIT_RESOLUTION"
| "tag (SetLowpassFilterOrderCommand _ _ _) = SET_LOWPASS_FILTER_ORDER"
| "tag (SetLowpassCutoffCommand _ _ _) = SET_LOWPASS_CUTOFF"
| "tag (SetSliderThresholdCommand _ _ _) = SET_SLIDER_THRESHOLD"
| "tag (SetInvertEnabledCommand _ _ _) = SET_INVERT_ENABLED"
| "tag (SetInputScaleRangeCommand _ _ _ _) = SET_INPUT_SCALE_RANGE"
| "tag (SetOutputRangeCommand _ _ _ _) = SET_OUTPUT_RANGE"
| "tag (SendDigitalPinValueCommand _ _ _) = SEND_DIGITAL_PIN_VALUE"
| "tag (EnableSendingCommand _ _ _) = ENABLE_SENDING"
| "tag (SetMuteStatusCommand _ _ _) = SET_MUTE_STATUS"
| "tag (VerifyAcksCommand _ _ _) = VERIFY_ACKS"
| "tag (ReloadConfigCommand _ _) = RELOAD_CONFIG"

fun index :: "Command \<Rightarrow> int" where
  "index (SetPinTypeCommand i _ _) = i"
| "index (SetSendingModeCommand i _ _) = i"
| "index (SetSendingDeltaTicksCommand i _ _) = i"
| "index (SetSamplingRateCommand i _ _) = i"
| "index (SetADCBitResolutionCommand i _ _) = i"
| "index (SetLowpassFilterOrderCommand i _ _) = i"
| "index (SetLowpassCutoffCommand i _ _) = i"
| "index (SetSliderThresholdCommand i _ _) = i"
| "index (SetInvertEnabledCommand i _ _) = i"
| "index (SetInputScaleRangeCommand i _ _ _) = i"
| "index (SetOutputRangeCommand i _ _ _) = i"
| "index (SendDigitalPinValueCommand i _ _) = i"
| "index (EnableSendingCommand i _ _) = i"
| "index (SetMuteStatusCommand i _ _) = i"
| "index (VerifyAcksCommand i _ _) = i"
| "index (ReloadConfigCommand i _) = i"

datatype CommandErrorCode =
    OK | INVALID_PIN_INDEX | INVALID_VALUE | INVALID_COMMAND_FOR_PIN_TYPE | UNINITIALIZED_PIN

section \<open>Mapping processor\<close>

text \<open>
  The three mapper classes are not among the sources. A mapper is the class it was
  constructed as, which it keeps for its lifetime, and the fields of that class, of a type
  \<open>'m\<close> left open. The constructors of the classes and their \<^verbatim>\<open>apply_command\<close> methods
  are the parameters \<open>'m mapper_classes\<close> of the model.
\<close>

datatype 'm BaseSensorMapper = DigitalSensorMapper 'm | AnalogSensorMapper 'm | ImuMapper 'm

record 'm mapper_classes =
  new_DigitalSensorMapper :: "int \<Rightarrow> 'm"
  new_AnalogSensorMapper :: "int \<Rightarrow> 'm"
  new_ImuMapper :: "int \<Rightarrow> 'm"
  digital_apply_command :: "'m \<Rightarrow> Command \<Rightarrow> CommandErrorCode \<times> 'm"
  analog_apply_command :: "'m \<Rightarrow> Command \<Rightarrow> CommandErrorCode \<times> 'm"
  imu_apply_command :: "'m \<Rightarrow> Command \<Rightarrow> CommandErrorCode \<times> 'm"

text \<open>The virtual call \<^verbatim>\<open>_mappers[sensor_index]->apply_command(cmd)\<close>.\<close>

fun mapper_apply_command ::
  "'m mapper_classes \<Rightarrow> 'm BaseSensorMapper \<Rightarrow> Command \<Rightarrow> CommandErrorCode \<times> 'm BaseSensorMapper"
where
  "mapper_apply_command M (DigitalSensorMapper m) command =
     (case digital_apply_command M m command of (status, m') \<Rightarrow> (status, DigitalSensorMapper m'))"
| "mapper_apply_command M (AnalogSensorMapper m) command =
     (case analog_apply_command M m command of (status, m') \<Rightarrow> (status, AnalogSensorMapper m'))"
| "mapper_apply_command M (ImuMapper m) command =
     (case imu_apply_command M m command of (status, m') \<Rightarrow> (status, ImuMapper m'))"

record 'm MappingProcessor =
  max_n_pins :: int
  mappers :: "'m BaseSensorMapper option list"

text \<open>
  The constructor: \<^verbatim>\<open>_mappers.resize(_max_n_pins)\<close> throws for a negative count (it is
  converted to an unsigned size beyond the vector's maximum).
\<close>

definition new_MappingProcessor :: "int \<Rightarrow> 'm MappingProcessor option" where
  "new_MappingProcessor max_n_input_pins =
     (if max_n_input_pins < 0 then None
      else Some \<lparr> max_n_pins = max_n_input_pins,
                  mappers = replicate (nat max_n_input_pins) None \<rparr>)"

definition processor_ok :: "'m MappingProcessor \<Rightarrow> bool" where
  "processor_ok p = (0 \<le> max_n_pins p \<and> length (mappers p) = nat (max_n_pins p))"

text \<open>
  \<^verbatim>\<open>apply_command\<close> returns the status, and the processor after the call. The
  \<^verbatim>\<open>static_cast\<close> to \<^verbatim>\<open>SetPinTypeCommand\<close> behind the test of the tag is the match
  on the constructor. The index and the pin count are \<^verbatim>\<open>int\<close>; for a processor that
  the constructor has built the count is not negative, and \<^verbatim>\<open>_max_n_pins - 1\<close> does not
  overflow.
\<close>

definition apply_command ::
  "'m mapper_classes \<Rightarrow> 'm MappingProcessor \<Rightarrow> Command \<Rightarrow> CommandErrorCode \<times> 'm MappingProcessor"
where
  "apply_command M this command =
     (let sensor_index = index command in
      if sensor_index < 0 \<or> sensor_index > max_n_pins this - 1 then (INVALID_PIN_INDEX, this)
      else
        (case command of
           SetPinTypeCommand _ _ pin_type \<Rightarrow>
             (case pin_type of
                DIGITAL_INPUT \<Rightarrow>
                  (OK, this\<lparr> mappers := (mappers this)
                     [nat sensor_index := Some (DigitalSensorMapper (new_DigitalSensorMapper M sensor_index))] \<rparr>)
              | ANALOG_INPUT \<Rightarrow>
                  (OK, this\<lparr> mappers := (mappers this)
                     [nat sensor_index := Some (AnalogSensorMapper (new_AnalogSensorMapper M sensor_index))] \<rparr>)
              | IMU_INPUT \<Rightarrow>
                  (OK, this\<lparr> mappers := (mappers this)
                     [nat sensor_index := Some (ImuMapper (new_ImuMapper M sensor_index))] \<rparr>)
              | _ \<Rightarrow> (INVALID_VALUE, this))
         | _ \<Rightarrow>
             (case mappers this ! nat sensor_index of
                None \<Rightarrow> (UNINITIALIZED_PIN, this)
              | Some mapper \<Rightarrow>
                  (case mapper_apply_command M mapper command of
                     (status, mapper') \<Rightarrow>
                       (status, this\<lparr> mappers := (mappers this)[nat sensor_index := Some mapper'] \<rparr>)))))"

text \<open>The commands of a list applied one after the other, as the dispatcher does.\<close>

fun apply_commands ::
  "'m mapper_classes \<Rightarrow> 'm MappingProcessor \<Rightarrow> Command list \<Rightarrow> 'm MappingProcessor"
where
  "apply_commands M p [] = p"
| "apply_commands M p (c # cs) = apply_commands M (snd (apply_command M p c)) cs"

text \<open>
  The spec's side of the mapper invariant: the class that a pin type stands for, and the
  pin type of the last \<^verbatim>\<open>SET_PIN_TYPE\<close> command for pin \<open>i\<close> that returned \<^verbatim>\<open>OK\<close> in
  a run of commands (\<open>acc\<close> is the one before the run).
\<close>

datatype MapperKind = Digital | Analog | Imu

fun kind_of :: "'m BaseSensorMapper \<Rightarrow> MapperKind" where
  "kind_of (DigitalSensorMapper _) = Digital"
| "kind_of (AnalogSensorMapper _) = Analog"
| "kind_of (ImuMapper _) = Imu"

fun kind_for :: "PinType \<Rightarrow> MapperKind option" where
  "kind_for DIGITAL_INPUT = Some Digital"
| "kind_for ANALOG_INPUT = Some Analog"
| "kind_for IMU_INPUT = Some Imu"
| "kind_for _ = None"

fun pin_type_data :: "Command \<Rightarrow> PinType option" where
  "pin_type_data (SetPinTypeCommand _ _ pin_type) = Some pin_type"
| "pin_type_data _ = None"

fun last_set_pin_type ::
  "'m mapper_classes \<Rightarrow> 'm MappingProcessor \<Rightarrow> int \<Rightarrow> Command list \<Rightarrow> PinType option
   \<Rightarrow> PinType option"
where
  "last_set_pin_type M p i [] acc = acc"
| "last_set_pin_type M p i (c # cs) acc =
     last_set_pin_type M (snd (apply_command M p c)) i cs
       (if tag c = SET_PIN_TYPE \<and> index c = i \<and> fst (apply_command M p c) = OK
        then pin_type_data c else acc)"

text \<open>Mapper classes without fields, which accept every command: for the examples.\<close>

definition unit_mappers :: "unit mapper_classes" where
  "unit_mappers =
     \<lparr> new_DigitalSensorMapper = (\<lambda>_. ()), new_AnalogSensorMapper = (\<lambda>_. ()),
       new_ImuMapper = (\<lambda>_. ()),
       digital_apply_command = (\<lambda>m _. (OK, m)), analog_apply_command = (\<lambda>m _. (OK, m)),
       imu_apply_command = (\<lambda>m _. (OK, m)) \<rparr>"

definition slot_kind :: "'m MappingProcessor \<Rightarrow> int \<Rightarrow> MapperKind option" where
  "slot_kind p i = map_option kind_of (mappers p ! nat i)"

text \<open>A processor for four pins as the constructor leaves it, one with two pins set up,
  and a run of commands.\<close>

definition example_processor :: "unit MappingProcessor" where
  "example_processor = \<lparr> max_n_pins = 4, mappers = [None, None, None, None] \<rparr>"

definition example_configured :: "unit MappingProcessor" where
  "example_configured =
     \<lparr> max_n_pins = 4,
       mappers = [None, Some (ImuMapper ()), Some (AnalogSensorMapper ()), None] \<rparr>"

definition example_commands :: "Command list" where
  "example_commands =
     [SetPinTypeCommand 2 0 DIGITAL_INPUT, SetPinTypeCommand 2 1 DISABLED,
      SetPinTypeCommand 2 2 ANALOG_INPUT, SetSendingModeCommand 2 3 CONTINUOUS,
      SetPinTypeCommand 1 4 IMU_INPUT, SetPinTypeCommand 7 5 IMU_INPUT]"

section \<open>Serial frontend: messages in and commands out\<close>

text \<open>
  The numeric codes of the wire protocol (\<^verbatim>\<open>SENSEI_CMD\<close> and the pin types of the
  board) are declared in the protocol header, which is not among the sources: they are
  parameters of the model. \<open>example_protocol\<close> is one choice of distinct codes for the
  examples.
\<close>

record sensei_protocol =
  GET_VALUE :: u8
  GET_ALL_VALUES :: u8
  ACK :: u8
  PIN_DIGITAL_INPUT :: u8
  PIN_ANALOG_INPUT :: u8

definition example_protocol :: sensei_protocol where
  "example_protocol =
     \<lparr> GET_VALUE = 102, GET_ALL_VALUES = 103, ACK = 255,
       PIN_DIGITAL_INPUT = 1, PIN_ANALOG_INPUT = 3 \<rparr>"

text \<open>
  The payload of a value packet. \<^verbatim>\<open>create_internal_message\<close> casts the payload to
  \<^verbatim>\<open>teensy_digital_value_msg\<close> and \<^verbatim>\<open>teensy_analog_value_msg\<close>, which no source file
  declares; the internal header declares the packed \<^verbatim>\<open>teensy_value_msg\<close> with the same
  three fields, and the unit test fills the payload through it. Its layout is taken for
  both: \<^verbatim>\<open>pin_id\<close> in bytes 0 and 1, \<^verbatim>\<open>value\<close> in bytes 2 and 3, \<^verbatim>\<open>pin_type\<close> in byte 4.
\<close>

record teensy_value_msg =
  pin_id :: u16
  val :: u16
  pin_type :: u8

definition teensy_value_msg_of :: "u8 list \<Rightarrow> teensy_value_msg" where
  "teensy_value_msg_of bs =
     \<lparr> pin_id = u16_of_bytes (take 2 bs), val = u16_of_bytes (take 2 (drop 2 bs)),
       pin_type = bs ! 4 \<rparr>"

definition teensy_value_msg_bytes :: "teensy_value_msg \<Rightarrow> u8 list" where
  "teensy_value_msg_bytes m = bytes_u16 (pin_id m) @ bytes_u16 (val m) @ [pin_type m]"

text \<open>
  Modelled from the spec: the message classes and their factory are not among the
  sources. A value message holds the index, the value and the timestamp it was made
  with, which the unit test reads back.
\<close>

datatype BaseMessage = DigitalValue int bool u32 | AnalogValue int int u32

datatype running_state = RUNNING | STOPPING | STOPPED

text \<open>
  The frontend: its two queues, the states of its threads, the mute flag, and the buffer
  argument of every \<^verbatim>\<open>sp_nonblocking_write\<close> so far (\<open>None\<close> for a null pointer). The unit
  test sets \<^verbatim>\<open>_pin_to_id_table\<close> on the frontend, so the class holds that table; the
  port handle, the mutex and \<^verbatim>\<open>_connected\<close>, which the functions below do not read, are
  left out.
\<close>

record SerialFrontend =
  in_queue :: "Command list"
  out_queue :: "BaseMessage list"
  read_thread_state :: running_state
  write_thread_state :: running_state
  muted :: bool
  pin_to_id_table :: "nat \<Rightarrow> int"
  port_writes :: "sSenseiDataPacket option list"

definition mute :: "bool \<Rightarrow> SerialFrontend \<Rightarrow> SerialFrontend" where
  "mute state this = this\<lparr> muted := state \<rparr>"

definition create_internal_message :: "sensei_protocol \<Rightarrow> sSenseiDataPacket \<Rightarrow> BaseMessage option"
where
  "create_internal_message P packet =
     (if cmd packet = GET_VALUE P \<or> cmd packet = GET_ALL_VALUES P then
        (let m = teensy_value_msg_of (payload packet) in
         if pin_type m = PIN_DIGITAL_INPUT P then
           Some (DigitalValue (uint (pin_id m)) (val m \<noteq> 0) (timestamp packet))
         else if pin_type m = PIN_ANALOG_INPUT P then
           Some (AnalogValue (uint (pin_id m)) (uint (val m)) (timestamp packet))
         else None)
      else if cmd packet = ACK P then None
      else None)"

text \<open>
  One turn of the loop of \<^verbatim>\<open>read_loop\<close>, for a read that returned \<open>ret\<close> and left
  \<open>buffer\<close> in the receive buffer; and the loop over the reads that happen until the
  thread sees that it is to stop.
\<close>

definition read_loop_iteration ::
  "sensei_protocol \<Rightarrow> SerialFrontend \<Rightarrow> int \<Rightarrow> u8 list \<Rightarrow> SerialFrontend"
where
  "read_loop_iteration P this ret buffer =
     (if ret \<ge> SENSEI_LENGTH_DATA_PACKET then
        (let packet = packet_of_buffer buffer in
         if muted this = False \<and> verify_message packet = False then this
         else
           (case create_internal_message P packet of
              Some m \<Rightarrow> this\<lparr> out_queue := out_queue this @ [m] \<rparr>
            | None \<Rightarrow> this))
      else this)"

fun read_loop ::
  "sensei_protocol \<Rightarrow> SerialFrontend \<Rightarrow> (int \<times> u8 list) list \<Rightarrow> SerialFrontend"
where
  "read_loop P this [] = this\<lparr> read_thread_state := STOPPED \<rparr>"
| "read_loop P this ((ret, buffer) # reads) =
     (if read_thread_state this = RUNNING
      then read_loop P (read_loop_iteration P this ret buffer) reads
      else this\<lparr> read_thread_state := STOPPED \<rparr>)"

text \<open>
  The packet factory is not among the sources: its nine functions are parameters. Each
  returns a pointer to a packet it has filled in, taken to be non-null. The casts of the
  pin type and the sending mode to \<^verbatim>\<open>int\<close> are left to the parameter.
\<close>

record packet_factory =
  make_set_sampling_rate_cmd :: "u32 \<Rightarrow> f32 \<Rightarrow> sSenseiDataPacket"
  make_config_pintype_cmd :: "int \<Rightarrow> u32 \<Rightarrow> PinType \<Rightarrow> sSenseiDataPacket"
  make_config_sendingmode_cmd :: "int \<Rightarrow> u32 \<Rightarrow> SendingMode \<Rightarrow> sSenseiDataPacket"
  make_config_delta_ticks_cmd :: "int \<Rightarrow> u32 \<Rightarrow> u32 \<Rightarrow> sSenseiDataPacket"
  make_config_bitres_cmd :: "int \<Rightarrow> u32 \<Rightarrow> u8 \<Rightarrow> sSenseiDataPacket"
  make_config_filter_order_cmd :: "int \<Rightarrow> u32 \<Rightarrow> u8 \<Rightarrow> sSenseiDataPacket"
  make_config_lowpass_cutoff_cmd :: "int \<Rightarrow> u32 \<Rightarrow> f32 \<Rightarrow> sSenseiDataPacket"
  make_config_slider_threshold_cmd :: "int \<Rightarrow> u32 \<Rightarrow> u16 \<Rightarrow> sSenseiDataPacket"
  make_set_digital_pin_cmd :: "int \<Rightarrow> u32 \<Rightarrow> u8 \<Rightarrow> sSenseiDataPacket"

text \<open>\<^verbatim>\<open>create_send_command\<close>: the switch on the tag with its casts; \<open>None\<close> is
  \<^verbatim>\<open>nullptr\<close>.\<close>

definition create_send_command :: "packet_factory \<Rightarrow> Command \<Rightarrow> sSenseiDataPacket option" where
  "create_send_command F message =
     (case message of
        SetSamplingRateCommand i t d \<Rightarrow> Some (make_set_sampling_rate_cmd F t d)
      | SetPinTypeCommand i t d \<Rightarrow> Some (make_config_pintype_cmd F i t d)
      | SetSendingModeCommand i t d \<Rightarrow> Some (make_config_sendingmode_cmd F i t d)
      | SetSendingDeltaTicksCommand i t d \<Rightarrow> Some (make_config_delta_ticks_cmd F i t d)
      | SetADCBitResolutionCommand i t d \<Rightarrow> Some (make_config_bitres_cmd F i t d)
      | SetLowpassFilterOrderCommand i t d \<Rightarrow> Some (make_config_filter_order_cmd F i t d)
      | SetLowpassCutoffCommand i t d \<Rightarrow> Some (make_config_lowpass_cutoff_cmd F i t d)
      | SetSliderThresholdCommand i t d \<Rightarrow> Some (make_config_slider_threshold_cmd F i t d)
      | SendDigitalPinValueCommand i t d \<Rightarrow> Some (make_set_digital_pin_cmd F i t d)
      | _ \<Rightarrow> None)"

text \<open>
  One turn of the loop of \<^verbatim>\<open>write_loop\<close> after the wait: nothing on an empty queue,
  else the command is popped and the pointer that \<^verbatim>\<open>create_send_command\<close> returns goes
  to \<^verbatim>\<open>sp_nonblocking_write\<close> as it is. The loop takes \<open>n\<close> turns before the thread
  sees that it is to stop.
\<close>

definition write_loop_iteration :: "packet_factory \<Rightarrow> SerialFrontend \<Rightarrow> SerialFrontend" where
  "write_loop_iteration F this =
     (case in_queue this of
        [] \<Rightarrow> this
      | message # rest \<Rightarrow>
          (let packet = create_send_command F message
           in this\<lparr> in_queue := rest, port_writes := port_writes this @ [packet] \<rparr>))"

fun write_loop :: "packet_factory \<Rightarrow> SerialFrontend \<Rightarrow> nat \<Rightarrow> SerialFrontend" where
  "write_loop F this 0 = this\<lparr> write_thread_state := STOPPED \<rparr>"
| "write_loop F this (Suc n) =
     (if write_thread_state this = RUNNING
      then write_loop F (write_loop_iteration F this) n
      else this\<lparr> write_thread_state := STOPPED \<rparr>)"

text \<open>The nine tags that the switch of \<^verbatim>\<open>create_send_command\<close> has a case for.\<close>

fun handled_tag :: "CommandTag \<Rightarrow> bool" where
  "handled_tag SET_SAMPLING_RATE = True"
| "handled_tag SET_PIN_TYPE = True"
| "handled_tag SET_SENDING_MODE = True"
| "handled_tag SET_SENDING_DELTA_TICKS = True"
| "handled_tag SET_ADC_BIT_RESOLUTION = True"
| "handled_tag SET_LOWPASS_FILTER_ORDER = True"
| "handled_tag SET_LOWPASS_CUTOFF = True"
| "handled_tag SET_SLIDER_THRESHOLD = True"
| "handled_tag SEND_DIGITAL_PIN_VALUE = True"
| "handled_tag _ = False"

subsection \<open>Example packets\<close>

text \<open>
  The packet of the unit test \<^verbatim>\<open>test_process_serial_packet\<close> (pin 12, value 35, an
  analog input, timestamp 1234) with the command byte \<open>c\<close>, and the same as 64 bytes on
  the wire with a correct and with a wrong checksum.
\<close>

definition value_packet :: "u8 \<Rightarrow> sSenseiDataPacket" where
  "value_packet c =
     \<lparr> start_header = START_SIGNATURE, cmd = c, sub_cmd = 0,
       payload = teensy_value_msg_bytes \<lparr> pin_id = 12, val = 35, pin_type = 3 \<rparr>
                 @ replicate (SENSEI_PAYLOAD_LENGTH - 5) 0,
       continuation = 0, timestamp = 1234, crc = 0, stop_header = STOP_SIGNATURE \<rparr>"

definition value_msg :: "u8 list" where
  "value_msg = [0x1, 0x2, 0x3, 0x66, 0x0, 0xc, 0x0, 0x23, 0x0, 0x3] @ replicate 44 0
               @ [0x0, 0xd2, 0x4, 0x0, 0x0, 0x6e, 0x1, 0x4, 0x5, 0x6]"

definition corrupt_value_msg :: "u8 list" where
  "corrupt_value_msg = value_msg[59 := 0x0]"

definition test_frontend :: SerialFrontend where
  "test_frontend =
     \<lparr> in_queue = [], out_queue = [], read_thread_state = RUNNING,
       write_thread_state = RUNNING, muted = False,
       pin_to_id_table = (\<lambda>_. 0)(12 := 10), port_writes = [] \<rparr>"

text \<open>A packet factory for the examples: every function returns the test packet.\<close>

definition example_factory :: packet_factory where
  "example_factory =
     \<lparr> make_set_sampling_rate_cmd = (\<lambda>_ _. packet_of_buffer test_msg),
       make_config_pintype_cmd = (\<lambda>_ _ _. packet_of_buffer test_msg),
       make_config_sendingmode_cmd = (\<lambda>_ _ _. packet_of_buffer test_msg),
       make_config_delta_ticks_cmd = (\<lambda>_ _ _. packet_of_buffer test_msg),
       make_config_bitres_cmd = (\<lambda>_ _ _. packet_of_buffer test_msg),
       make_config_filter_order_cmd = (\<lambda>_ _ _. packet_of_buffer test_msg),
       make_config_lowpass_cutoff_cmd = (\<lambda>_ _ _. packet_of_buffer test_msg),
       make_config_slider_threshold_cmd = (\<lambda>_ _ _. packet_of_buffer test_msg),
       make_set_digital_pin_cmd = (\<lambda>_ _ _. packet_of_buffer test_msg) \<rparr>"

text \<open>A queue of two commands, the second with a tag that \<^verbatim>\<open>create_send_command\<close>
  has no case for.\<close>

definition example_queue :: "Command list" where
  "example_queue = [SetPinTypeCommand 1 0 ANALOG_INPUT, SetInvertEnabledCommand 1 1 True]"

text \<open>A concatenator as constructed (its storage zeroed for the example), and a first
  half: the test packet with the continuation flag set.\<close>

definition example_concatenator :: MessageConcatenator where
  "example_concatenator = \<lparr> waiting = False, storage = replicate (SENSEI_PAYLOAD_LENGTH * 2) 0 \<rparr>"

definition first_half :: sSenseiDataPacket where
  "first_half = (value_packet 102)\<lparr> continuation := 1 \<rparr>"

section \<open>Event handler\<close>

text \<open>
  Modelled from the spec: of the event handler, the class declaration and the body of
  \<^verbatim>\<open>reload_config\<close> are among the sources; the configuration backend, \<^verbatim>\<open>handle_events\<close>
  and the target of a command are not. In the spec the configuration loader produces
  command messages that flow into the event handler, handed over when they are enqueued,
  and the dispatcher routes the messages of the event queue in FIFO order: a command, by
  its target, to the mapping processor, to the to-frontend queue or to the handler's own
  state; a value to the mapping processor; an error to the log. The parser of the
  configuration source, the target of a command and the processing of a value are
  parameters.
\<close>

datatype CommandTarget = MAPPING | HW_FRONTEND | INTERNAL

datatype queued_message =
  ValueMessage BaseMessage | CommandMessage Command | ErrorMessage CommandErrorCode

record ('m, 'src) EventHandler =
  to_frontend_queue :: "Command list"
  event_queue :: "queued_message list"
  processor :: "'m MappingProcessor"
  config_backend :: 'src
  mute_status :: bool
  verify_acks :: bool
  error_log :: "CommandErrorCode list"

record ('m, 'src, 'hw) handler_parts =
  mapper_impl :: "'m mapper_classes"
  parse :: "'src \<Rightarrow> 'hw \<times> Command list"
  target :: "Command \<Rightarrow> CommandTarget"
  process :: "'m MappingProcessor \<Rightarrow> BaseMessage \<Rightarrow> 'm MappingProcessor"

text \<open>
  Modelled from the spec: \<^verbatim>\<open>read(hw_config)\<close> of the configuration backend, which is
  not among the sources. It reads its source, fills \<^verbatim>\<open>hw_config\<close> and enqueues the
  commands of the configuration on the event queue.
\<close>

definition read ::
  "('m, 'src, 'hw) handler_parts \<Rightarrow> 'src \<Rightarrow> queued_message list \<Rightarrow> 'hw \<times> queued_message list"
where
  "read E source queue =
     (case parse E source of
        (hw_config, commands) \<Rightarrow> (hw_config, queue @ map CommandMessage commands))"

text \<open>\<^verbatim>\<open>reload_config\<close>, from the source: it calls \<^verbatim>\<open>read\<close> on a local
  \<^verbatim>\<open>HwFrontendConfig\<close>, which it then drops.\<close>

definition reload_config ::
  "('m, 'src, 'hw) handler_parts \<Rightarrow> ('m, 'src) EventHandler \<Rightarrow> ('m, 'src) EventHandler"
where
  "reload_config E this =
     (case read E (config_backend this) (event_queue this) of
        (hwc, queue) \<Rightarrow> this\<lparr> event_queue := queue \<rparr>)"

text \<open>
  Modelled from the spec: the routing of a message (\<^verbatim>\<open>_handle_command\<close>,
  \<^verbatim>\<open>_handle_value\<close> and \<^verbatim>\<open>_handle_error\<close> are declared in the header and defined
  elsewhere). An error code of the mapping processor other than \<^verbatim>\<open>OK\<close> is logged.
\<close>

fun handle_internal ::
  "('m, 'src, 'hw) handler_parts \<Rightarrow> ('m, 'src) EventHandler \<Rightarrow> Command \<Rightarrow> ('m, 'src) EventHandler"
where
  "handle_internal E this (SetMuteStatusCommand _ _ b) = this\<lparr> mute_status := b \<rparr>"
| "handle_internal E this (VerifyAcksCommand _ _ b) = this\<lparr> verify_acks := b \<rparr>"
| "handle_internal E this (ReloadConfigCommand _ _) = reload_config E this"
| "handle_internal E this _ = this"

definition handle_command ::
  "('m, 'src, 'hw) handler_parts \<Rightarrow> ('m, 'src) EventHandler \<Rightarrow> Command \<Rightarrow> ('m, 'src) EventHandler"
where
  "handle_command E this c =
     (case target E c of
        MAPPING \<Rightarrow>
          (case apply_command (mapper_impl E) (processor this) c of
             (status, processor') \<Rightarrow>
               this\<lparr> processor := processor',
                     error_log := (if status = OK then error_log this
                                   else error_log this @ [status]) \<rparr>)
      | HW_FRONTEND \<Rightarrow> this\<lparr> to_frontend_queue := to_frontend_queue this @ [c] \<rparr>
      | INTERNAL \<Rightarrow> handle_internal E this c)"

fun handle_message ::
  "('m, 'src, 'hw) handler_parts \<Rightarrow> queued_message \<Rightarrow> ('m, 'src) EventHandler \<Rightarrow> ('m, 'src) EventHandler"
where
  "handle_message E (CommandMessage c) this = handle_command E this c"
| "handle_message E (ValueMessage v) this = this\<lparr> processor := process E (processor this) v \<rparr>"
| "handle_message E (ErrorMessage e) this = this\<lparr> error_log := error_log this @ [e] \<rparr>"

text \<open>
  Modelled from the spec: \<^verbatim>\<open>handle_events\<close>, declared in the header and defined
  elsewhere. One call drains the messages that are on the event queue, oldest first; what
  the handling enqueues is left for the next call.
\<close>

definition handle_events ::
  "('m, 'src, 'hw) handler_parts \<Rightarrow> ('m, 'src) EventHandler \<Rightarrow> ('m, 'src) EventHandler"
where
  "handle_events E this = fold (handle_message E) (event_queue this) (this\<lparr> event_queue := [] \<rparr>)"

text \<open>An idle handler whose configuration source is a list of commands, read as it is.\<close>

fun example_target :: "Command \<Rightarrow> CommandTarget" where
  "example_target c =
     (if tag c = SET_PIN_TYPE then MAPPING
      else if handled_tag (tag c) then HW_FRONTEND
      else INTERNAL)"

definition example_parts :: "(unit, Command list, unit) handler_parts" where
  "example_parts =
     \<lparr> mapper_impl = unit_mappers, parse = (\<lambda>source. ((), source)),
       target = example_target, process = (\<lambda>p v. p) \<rparr>"

definition example_handler :: "(unit, Command list) EventHandler" where
  "example_handler =
     \<lparr> to_frontend_queue = [], event_queue = [], processor = example_processor,
       config_backend = example_commands, mute_status = False, verify_acks = False,
       error_log = [] \<rparr>"

section \<open>Properties\<close>

subsection \<open>Checksum\<close>

lemma fold_index_sum:
  fixes a :: "'a::comm_monoid_add"
  shows "fold (\<lambda>i s. s + f (xs ! i)) [0..<length xs] a = a + sum_list (map f xs)"
proof (induction xs rule: rev_induct)
  case Nil
  then show ?case by simp
next
  case (snoc x xs)
  have "fold (\<lambda>i s. s + f ((xs @ [x]) ! i)) [0..<length xs] a
        = fold (\<lambda>i s. s + f (xs ! i)) [0..<length xs] a"
    by (rule fold_cong) (simp_all add: nth_append)
  with snoc show ?case by (simp add: add.assoc)
qed

lemma unat_ucast_u8_u16: "unat (ucast (b :: u8) :: u16) = unat b"
proof -
  have "unat b < 2 ^ 8" using unsigned_less [of b, where 'a=nat] by simp
  then have "unat b < 2 ^ 16" by simp
  then show ?thesis by (simp add: unsigned_ucast_eq take_bit_nat_eq_self)
qed

lemma unat_sum_list_ucast:
  "unat (sum_list (map ucast bs) :: u16) = sum_list (map unat (bs :: u8 list)) mod 2 ^ 16"
proof (induction bs)
  case Nil
  then show ?case by simp
next
  case (Cons b bs)
  have "unat (ucast b + sum_list (map ucast bs) :: u16)
        = (unat (ucast b :: u16) + unat (sum_list (map ucast bs) :: u16)) mod 2 ^ 16"
    by (simp add: unat_word_ariths)
  then show ?case using Cons by (simp add: unat_ucast_u8_u16 mod_add_right_eq)
qed

lemma length_from_payload:
  "packet_ok p \<Longrightarrow> length (from_payload p) = SENSEI_PAYLOAD_LENGTH + 1 + 4"
  by (simp add: packet_ok_def from_payload_def bytes_u32_def)

lemma calculate_crc_word:
  assumes "packet_ok p"
  shows "calculate_crc p
         = ucast (cmd p) + ucast (sub_cmd p) + sum_list (map ucast (from_payload p))"
  unfolding calculate_crc_def
  using fold_index_sum [of ucast "from_payload p" "ucast (cmd p) + ucast (sub_cmd p) :: u16"]
  by (simp add: length_from_payload [OF assms])

lemma calculate_crc_unat:
  assumes "packet_ok p"
  shows "unat (calculate_crc p)
         = (unat (cmd p) + unat (sub_cmd p) + sum_list (map unat (from_payload p))) mod 2 ^ 16"
proof -
  let ?s = "sum_list (map ucast (from_payload p)) :: u16"
  have "unat (calculate_crc p)
        = (unat (ucast (cmd p) + ucast (sub_cmd p) :: u16) + unat ?s) mod 2 ^ 16"
    by (simp add: calculate_crc_word [OF assms] unat_word_ariths)
  also have "unat (ucast (cmd p) + ucast (sub_cmd p) :: u16)
             = (unat (cmd p) + unat (sub_cmd p)) mod 2 ^ 16"
    by (simp add: unat_word_ariths unat_ucast_u8_u16)
  finally show ?thesis
    by (simp add: unat_sum_list_ucast mod_add_eq)
qed

lemma test_msg_verifies: "verify_message (packet_of_buffer test_msg)"
  by code_simp

text \<open>
  C2. For a packet whose payload array has its declared size, \<^verbatim>\<open>calculate_crc\<close> is the
  sum modulo \<open>2 ^ 16\<close> of \<^verbatim>\<open>cmd\<close>, \<^verbatim>\<open>sub_cmd\<close> and every byte of the continuation,
  timestamp and payload fields; two packets that agree on these five fields have the
  same checksum, whatever their headers and \<^verbatim>\<open>crc\<close> fields hold.
\<close>

theorem calculate_crc_is_byte_sum:
  assumes "packet_ok p"
  shows "unat (calculate_crc p)
           = (unat (cmd p) + unat (sub_cmd p)
              + sum_list (map unat ([continuation p] @ bytes_u32 (timestamp p) @ payload p)))
             mod 2 ^ 16
         \<and> (\<forall>q::sSenseiDataPacket. cmd q = cmd p \<and> sub_cmd q = sub_cmd p
                  \<and> continuation q = continuation p \<and> timestamp q = timestamp p
                  \<and> payload q = payload p
                \<longrightarrow> calculate_crc q = calculate_crc p)"
proof (intro conjI allI impI)
  show "unat (calculate_crc p)
          = (unat (cmd p) + unat (sub_cmd p)
             + sum_list (map unat ([continuation p] @ bytes_u32 (timestamp p) @ payload p)))
            mod 2 ^ 16"
    by (simp add: calculate_crc_unat [OF assms] from_payload_def add.commute add.left_commute)
next
  fix q :: sSenseiDataPacket
  assume q: "cmd q = cmd p \<and> sub_cmd q = sub_cmd p
               \<and> continuation q = continuation p \<and> timestamp q = timestamp p
               \<and> payload q = payload p"
  then have "from_payload q = from_payload p"
    by (simp add: from_payload_def)
  with q show "calculate_crc q = calculate_crc p"
    by (simp add: calculate_crc_def)
qed

theorem calculate_crc_is_byte_sum_witness:
  "packet_ok (packet_of_buffer test_msg)
   \<and> calculate_crc (packet_of_buffer swapped_start_msg)
       = calculate_crc (packet_of_buffer test_msg)"
proof -
  have ok: "packet_ok (packet_of_buffer test_msg)"
    by code_simp
  have same: "cmd (packet_of_buffer swapped_start_msg) = cmd (packet_of_buffer test_msg)"
    "sub_cmd (packet_of_buffer swapped_start_msg) = sub_cmd (packet_of_buffer test_msg)"
    "continuation (packet_of_buffer swapped_start_msg) = continuation (packet_of_buffer test_msg)"
    "timestamp (packet_of_buffer swapped_start_msg) = timestamp (packet_of_buffer test_msg)"
    "payload (packet_of_buffer swapped_start_msg) = payload (packet_of_buffer test_msg)"
    by code_simp+
  from calculate_crc_is_byte_sum [OF ok] same ok show ?thesis
    by blast
qed

subsection \<open>Message verification\<close>

lemma compare_packet_header_sum:
  "compare_packet_header (PACKET_HEADER a0 a1 a2) (PACKET_HEADER b0 b1 b2)
   = (uint a0 + uint a1 + uint a2) - (uint b0 + uint b1 + uint b2)"
  by (simp add: compare_packet_header_def sizeof_vByte_def numeral_3_eq_3)

lemma verify_message_iff:
  "verify_message p \<longleftrightarrow>
     compare_packet_header (start_header p) START_SIGNATURE = 0
     \<and> compare_packet_header (stop_header p) STOP_SIGNATURE = 0
     \<and> calculate_crc p = crc p"
  by (simp add: verify_message_def)

lemma verify_message_complete:
  "start_header p = START_SIGNATURE \<Longrightarrow> stop_header p = STOP_SIGNATURE
   \<Longrightarrow> calculate_crc p = crc p \<Longrightarrow> verify_message p"
  by (simp add: verify_message_iff START_SIGNATURE_def STOP_SIGNATURE_def
           compare_packet_header_sum)

text \<open>
  C1. \<^verbatim>\<open>verify_message\<close> accepts a packet whose start header is not the start
  signature: \<^verbatim>\<open>compare_packet_header\<close> adds the three byte differences up, so the
  header \<^verbatim>\<open>02 01 03\<close> compares as equal to \<^verbatim>\<open>01 02 03\<close>.
\<close>

theorem verify_message_accepts_wrong_header:
  "verify_message (packet_of_buffer swapped_start_msg)
   \<and> start_header (packet_of_buffer swapped_start_msg) \<noteq> START_SIGNATURE
   \<and> stop_header (packet_of_buffer swapped_start_msg) = STOP_SIGNATURE
   \<and> calculate_crc (packet_of_buffer swapped_start_msg)
       = crc (packet_of_buffer swapped_start_msg)"
  by code_simp

subsection \<open>MessageConcatenator\<close>

lemma add_idle:
  "\<not> waiting mc \<Longrightarrow> continuation p = 0 \<Longrightarrow> add mc p = (Some (payload p), mc)"
  by (simp add: add_def)

lemma add_first_half:
  assumes "packet_ok p" "continuation p \<noteq> 0"
  shows "add mc p = (None, mc\<lparr> storage := payload p @ drop SENSEI_PAYLOAD_LENGTH (storage mc),
                                waiting := True \<rparr>)"
  using assms by (simp add: add_def memcpy_def packet_ok_def)

lemma add_second_half:
  assumes "concatenator_ok mc" "packet_ok p" "waiting mc" "continuation p = 0"
  shows "add mc p = (Some (take SENSEI_PAYLOAD_LENGTH (storage mc) @ payload p),
                     mc\<lparr> storage := take SENSEI_PAYLOAD_LENGTH (storage mc) @ payload p,
                         waiting := False \<rparr>)"
  using assms by (simp add: add_def memcpy_def packet_ok_def concatenator_ok_def Let_def)

text \<open>
  C7. From the non-waiting state, \<^verbatim>\<open>add\<close> returns \<^verbatim>\<open>nullptr\<close> for a packet with
  \<^verbatim>\<open>continuation = 1\<close>, stores its payload and waits; for the next packet, with
  \<^verbatim>\<open>continuation = 0\<close>, it returns a buffer of \<open>2 * SENSEI_PAYLOAD_LENGTH\<close> bytes, the
  first payload followed by the second, and is non-waiting again, so that a third packet
  with \<^verbatim>\<open>continuation = 0\<close> is returned alone. A packet with \<^verbatim>\<open>continuation = 0\<close> in the
  non-waiting state is returned as it is, the concatenator unchanged. In any state, a
  returned buffer is the payload of the packet alone or the stored half followed by that
  payload: two halves, never more; a closing packet in the waiting state clears the
  waiting flag, and a packet with the continuation flag set starts a new first half.
\<close>

theorem add_joins_two_halves:
  assumes "concatenator_ok mc" "packet_ok p1" "packet_ok p2"
  shows "(\<not> waiting mc \<and> continuation p1 = 1 \<and> continuation p2 = 0 \<longrightarrow>
            fst (add mc p1) = None
            \<and> take SENSEI_PAYLOAD_LENGTH (storage (snd (add mc p1))) = payload p1
            \<and> fst (add (snd (add mc p1)) p2) = Some (payload p1 @ payload p2)
            \<and> length (payload p1 @ payload p2) = 2 * SENSEI_PAYLOAD_LENGTH
            \<and> snd (add mc p1)
                = mc\<lparr> storage := payload p1 @ drop SENSEI_PAYLOAD_LENGTH (storage mc),
                      waiting := True \<rparr>
            \<and> snd (add (snd (add mc p1)) p2)
                = mc\<lparr> storage := payload p1 @ payload p2, waiting := False \<rparr>
            \<and> (\<forall>p3. continuation p3 = 0 \<longrightarrow>
                  add (snd (add (snd (add mc p1)) p2)) p3
                  = (Some (payload p3),
                     mc\<lparr> storage := payload p1 @ payload p2, waiting := False \<rparr>)))
       \<and> (\<not> waiting mc \<and> continuation p2 = 0 \<longrightarrow> add mc p2 = (Some (payload p2), mc))
       \<and> (\<forall>r. fst (add mc p2) = Some r \<longrightarrow>
             r = payload p2 \<or> r = take SENSEI_PAYLOAD_LENGTH (storage mc) @ payload p2)
       \<and> concatenator_ok (snd (add mc p2))
       \<and> (waiting mc \<and> continuation p2 = 0 \<longrightarrow>
             add mc p2
             = (Some (take SENSEI_PAYLOAD_LENGTH (storage mc) @ payload p2),
                mc\<lparr> storage := take SENSEI_PAYLOAD_LENGTH (storage mc) @ payload p2,
                    waiting := False \<rparr>))
       \<and> (continuation p2 \<noteq> 0 \<longrightarrow>
             add mc p2
             = (None, mc\<lparr> storage := payload p2 @ drop SENSEI_PAYLOAD_LENGTH (storage mc),
                          waiting := True \<rparr>))"
proof (intro conjI impI allI)
  assume a: "\<not> waiting mc \<and> continuation p1 = 1 \<and> continuation p2 = 0"
  let ?mc = "snd (add mc p1)"
  let ?joined = "mc\<lparr> storage := payload p1 @ payload p2, waiting := False \<rparr>"
  from a assms have first:
    "add mc p1 = (None, mc\<lparr> storage := payload p1 @ drop SENSEI_PAYLOAD_LENGTH (storage mc),
                            waiting := True \<rparr>)"
    by (simp add: add_first_half)
  then show "fst (add mc p1) = None" by simp
  from first assms show "take SENSEI_PAYLOAD_LENGTH (storage ?mc) = payload p1"
    by (simp add: packet_ok_def)
  from first show "?mc = mc\<lparr> storage := payload p1 @ drop SENSEI_PAYLOAD_LENGTH (storage mc),
                              waiting := True \<rparr>"
    by simp
  from first assms have mid: "concatenator_ok ?mc" "waiting ?mc"
    "take SENSEI_PAYLOAD_LENGTH (storage ?mc) = payload p1"
    by (simp_all add: concatenator_ok_def packet_ok_def)
  from a assms(3) mid have second: "add ?mc p2 = (Some (payload p1 @ payload p2), ?joined)"
    using first by (simp add: add_second_half)
  then show "fst (add ?mc p2) = Some (payload p1 @ payload p2)" by simp
  from second show "snd (add ?mc p2) = ?joined" by simp
  from assms show "length (payload p1 @ payload p2) = 2 * SENSEI_PAYLOAD_LENGTH"
    by (simp add: packet_ok_def)
  show "add (snd (add ?mc p2)) p3 = (Some (payload p3), ?joined)"
    if "continuation p3 = 0" for p3
    using that second by (simp add: add_idle)
next
  assume "\<not> waiting mc \<and> continuation p2 = 0"
  then show "add mc p2 = (Some (payload p2), mc)"
    by (simp add: add_idle)
next
  fix r
  assume "fst (add mc p2) = Some r"
  with assms show "r = payload p2 \<or> r = take SENSEI_PAYLOAD_LENGTH (storage mc) @ payload p2"
    by (auto simp: add_def memcpy_def packet_ok_def concatenator_ok_def Let_def split: if_splits)
next
  from assms show "concatenator_ok (snd (add mc p2))"
    by (auto simp: add_def memcpy_def packet_ok_def concatenator_ok_def Let_def)
next
  assume "waiting mc \<and> continuation p2 = 0"
  with assms show "add mc p2
             = (Some (take SENSEI_PAYLOAD_LENGTH (storage mc) @ payload p2),
                mc\<lparr> storage := take SENSEI_PAYLOAD_LENGTH (storage mc) @ payload p2,
                    waiting := False \<rparr>)"
    by (simp add: add_second_half)
next
  assume "continuation p2 \<noteq> 0"
  with assms show "add mc p2
             = (None, mc\<lparr> storage := payload p2 @ drop SENSEI_PAYLOAD_LENGTH (storage mc),
                          waiting := True \<rparr>)"
    by (simp add: add_first_half)
qed

theorem add_joins_two_halves_witness:
  "concatenator_ok example_concatenator \<and> packet_ok first_half \<and> packet_ok (value_packet 102)
   \<and> fst (add example_concatenator first_half) = None
   \<and> fst (add (snd (add example_concatenator first_half)) (value_packet 102))
       = Some (payload first_half @ payload (value_packet 102))
   \<and> add example_concatenator (value_packet 102)
       = (Some (payload (value_packet 102)), example_concatenator)
   \<and> waiting (snd (add example_concatenator first_half))
   \<and> \<not> waiting (snd (add (snd (add example_concatenator first_half)) (value_packet 102)))
   \<and> fst (add (snd (add (snd (add example_concatenator first_half)) (value_packet 102)))
             (value_packet 102))
       = Some (payload (value_packet 102))"
proof -
  let ?mc = "example_concatenator"
  let ?p = "value_packet 102"
  have ok: "concatenator_ok ?mc" "packet_ok first_half" "packet_ok ?p"
    by code_simp+
  have pre: "\<not> waiting ?mc \<and> continuation first_half = 1 \<and> continuation ?p = 0"
    by (simp add: example_concatenator_def first_half_def value_packet_def)
  have c3: "continuation ?p = 0"
    by (simp add: value_packet_def)
  note th = add_joins_two_halves [OF ok]
  from th pre have r1: "fst (add ?mc first_half) = None"
    by blast
  from th pre have r2: "fst (add (snd (add ?mc first_half)) ?p)
                        = Some (payload first_half @ payload ?p)"
    by blast
  from th pre have r3: "add ?mc ?p = (Some (payload ?p), ?mc)"
    by blast
  from th pre have s1: "snd (add ?mc first_half)
      = ?mc\<lparr> storage := payload first_half @ drop SENSEI_PAYLOAD_LENGTH (storage ?mc),
             waiting := True \<rparr>"
    by blast
  from th pre have s2: "snd (add (snd (add ?mc first_half)) ?p)
      = ?mc\<lparr> storage := payload first_half @ payload ?p, waiting := False \<rparr>"
    by blast
  from th pre have "\<forall>p3. continuation p3 = 0 \<longrightarrow>
      add (snd (add (snd (add ?mc first_half)) ?p)) p3
      = (Some (payload p3), ?mc\<lparr> storage := payload first_half @ payload ?p, waiting := False \<rparr>)"
    by blast
  with c3 have r4: "fst (add (snd (add (snd (add ?mc first_half)) ?p)) ?p) = Some (payload ?p)"
    by simp
  have w1: "waiting (snd (add ?mc first_half))"
    unfolding s1 by simp
  have w2: "\<not> waiting (snd (add (snd (add ?mc first_half)) ?p))"
    unfolding s2 by simp
  from ok r1 r2 r3 w1 w2 r4 show ?thesis
    by simp
qed

subsection \<open>The mapping processor\<close>

lemma apply_command_out_of_range:
  "index c < 0 \<or> index c > max_n_pins p - 1 \<Longrightarrow> apply_command M p c = (INVALID_PIN_INDEX, p)"
  by (simp add: apply_command_def)

lemma apply_command_delegates:
  assumes "tag c \<noteq> SET_PIN_TYPE" "0 \<le> index c" "index c \<le> max_n_pins p - 1"
  shows "apply_command M p c =
           (case mappers p ! nat (index c) of
              None \<Rightarrow> (UNINITIALIZED_PIN, p)
            | Some mapper \<Rightarrow>
                (fst (mapper_apply_command M mapper c),
                 p\<lparr> mappers := (mappers p)
                      [nat (index c) := Some (snd (mapper_apply_command M mapper c))] \<rparr>))"
  using assms
  by (cases c) (simp_all add: apply_command_def split: option.split prod.split)

lemma apply_command_set_pin_type:
  assumes "0 \<le> i" "i \<le> max_n_pins p - 1"
  shows "apply_command M p (SetPinTypeCommand i t pt) =
           (case pt of
              DIGITAL_INPUT \<Rightarrow>
                (OK, p\<lparr> mappers := (mappers p)
                     [nat i := Some (DigitalSensorMapper (new_DigitalSensorMapper M i))] \<rparr>)
            | ANALOG_INPUT \<Rightarrow>
                (OK, p\<lparr> mappers := (mappers p)
                     [nat i := Some (AnalogSensorMapper (new_AnalogSensorMapper M i))] \<rparr>)
            | IMU_INPUT \<Rightarrow>
                (OK, p\<lparr> mappers := (mappers p)[nat i := Some (ImuMapper (new_ImuMapper M i))] \<rparr>)
            | _ \<Rightarrow> (INVALID_VALUE, p))"
  using assms by (simp add: apply_command_def)

lemma tag_set_pin_type: "tag c = SET_PIN_TYPE \<longleftrightarrow> (\<exists>i t pt. c = SetPinTypeCommand i t pt)"
  by (cases c) simp_all

lemma pin_type_data_Some: "tag c = SET_PIN_TYPE \<Longrightarrow> \<exists>pt. pin_type_data c = Some pt"
  by (cases c) simp_all

lemma kind_of_mapper_apply_command:
  "kind_of (snd (mapper_apply_command M m c)) = kind_of m"
  by (cases m) (simp_all split: prod.split)

lemma apply_command_shape:
  "max_n_pins (snd (apply_command M p c)) = max_n_pins p
   \<and> length (mappers (snd (apply_command M p c))) = length (mappers p)"
proof (cases "index c < 0 \<or> index c > max_n_pins p - 1")
  case True
  then show ?thesis by (simp add: apply_command_out_of_range)
next
  case range: False
  show ?thesis
  proof (cases "tag c = SET_PIN_TYPE")
    case True
    then obtain i t pt where "c = SetPinTypeCommand i t pt"
      by (auto simp: tag_set_pin_type)
    with range show ?thesis
      by (simp add: apply_command_set_pin_type split: PinType.split)
  next
    case False
    with range show ?thesis
      by (simp add: apply_command_delegates split: option.split)
  qed
qed

lemma apply_command_ok: "processor_ok p \<Longrightarrow> processor_ok (snd (apply_command M p c))"
  by (simp add: processor_ok_def apply_command_shape)

lemma new_example_processor: "new_MappingProcessor 4 = Some example_processor"
  by (simp add: new_MappingProcessor_def example_processor_def numeral_eq_Suc)

lemma example_processor_ok: "processor_ok example_processor"
  by (simp add: processor_ok_def example_processor_def)

text \<open>The class of the mapper of pin \<open>i\<close> after one command, and after a run.\<close>

lemma slot_kind_step:
  assumes ok: "processor_ok p" and i: "0 \<le> i" "i < max_n_pins p"
  shows "slot_kind (snd (apply_command M p c)) i =
           (if tag c = SET_PIN_TYPE \<and> index c = i \<and> fst (apply_command M p c) = OK
            then Option.bind (pin_type_data c) kind_for
            else slot_kind p i)"
proof (cases "index c < 0 \<or> index c > max_n_pins p - 1")
  case True
  then show ?thesis by (simp add: apply_command_out_of_range)
next
  case range: False
  from ok i have len: "nat i < length (mappers p)"
    by (simp add: processor_ok_def)
  from range i have neq: "index c \<noteq> i \<Longrightarrow> nat (index c) \<noteq> nat i"
    by arith
  show ?thesis
  proof (cases "tag c = SET_PIN_TYPE")
    case True
    then obtain j t pt where c: "c = SetPinTypeCommand j t pt"
      by (auto simp: tag_set_pin_type)
    from range c have j: "0 \<le> j" "j \<le> max_n_pins p - 1" by simp_all
    show ?thesis
    proof (cases "j = i")
      case True
      with c j len show ?thesis
        by (cases pt) (simp_all add: apply_command_set_pin_type slot_kind_def)
    next
      case False
      with neq c have "nat j \<noteq> nat i" by simp
      with c j False show ?thesis
        by (cases pt) (simp_all add: apply_command_set_pin_type slot_kind_def)
    qed
  next
    case False
    show ?thesis
    proof (cases "index c = i")
      case True
      with False range len show ?thesis
        by (simp add: apply_command_delegates slot_kind_def kind_of_mapper_apply_command
                 split: option.split)
    next
      case ne: False
      with neq have "nat (index c) \<noteq> nat i" by simp
      with False range show ?thesis
        by (simp add: apply_command_delegates slot_kind_def split: option.split)
    qed
  qed
qed

lemma last_set_pin_type_Some:
  "\<exists>pt'. last_set_pin_type M p i cs (Some pt) = Some pt'"
proof (induction cs arbitrary: p pt)
  case Nil
  then show ?case by simp
next
  case (Cons c cs)
  then show ?case
    using pin_type_data_Some [of c] by (cases "tag c = SET_PIN_TYPE") auto
qed

lemma slot_kind_run:
  assumes "processor_ok p" "0 \<le> i" "i < max_n_pins p"
    and "\<And>pt. acc = Some pt \<Longrightarrow> slot_kind p i = kind_for pt"
  shows "slot_kind (apply_commands M p cs) i =
           (case last_set_pin_type M p i cs acc of
              None \<Rightarrow> slot_kind p i
            | Some pt \<Rightarrow> kind_for pt)"
  using assms
proof (induction cs arbitrary: p acc)
  case Nil
  then show ?case by (simp split: option.split)
next
  case (Cons c cs)
  let ?p = "snd (apply_command M p c)"
  let ?set = "tag c = SET_PIN_TYPE \<and> index c = i \<and> fst (apply_command M p c) = OK"
  let ?acc = "if ?set then pin_type_data c else acc"
  have step: "slot_kind ?p i
              = (if ?set then Option.bind (pin_type_data c) kind_for else slot_kind p i)"
    using Cons.prems(1-3) by (rule slot_kind_step)
  have ok: "processor_ok ?p" "i < max_n_pins ?p"
    using Cons.prems by (simp_all add: apply_command_ok apply_command_shape)
  have acc: "slot_kind ?p i = kind_for pt" if "?acc = Some pt" for pt
    using that step Cons.prems(4) by (auto split: if_splits)
  have IH: "slot_kind (apply_commands M ?p cs) i =
              (case last_set_pin_type M ?p i cs ?acc of
                 None \<Rightarrow> slot_kind ?p i | Some pt \<Rightarrow> kind_for pt)"
    using ok(1) Cons.prems(2) ok(2) acc by (rule Cons.IH)
  have unf: "last_set_pin_type M p i (c # cs) acc = last_set_pin_type M ?p i cs ?acc"
    by simp
  show ?case
  proof (cases "last_set_pin_type M ?p i cs ?acc")
    case None
    have notset: "\<not> ?set"
    proof
      assume set: ?set
      then obtain pt where "pin_type_data c = Some pt"
        using pin_type_data_Some by blast
      with set have "?acc = Some pt" by simp
      with last_set_pin_type_Some [of M ?p i cs pt] None show False by simp
    qed
    with step have "slot_kind ?p i = slot_kind p i"
      by presburger
    with IH None show ?thesis
      unfolding unf by simp
  next
    case (Some pt)
    with IH show ?thesis
      unfolding unf by simp
  qed
qed

text \<open>
  C5. For a pin index in range, \<^verbatim>\<open>SET_PIN_TYPE\<close> with \<^verbatim>\<open>DIGITAL_INPUT\<close>,
  \<^verbatim>\<open>ANALOG_INPUT\<close> or \<^verbatim>\<open>IMU_INPUT\<close> returns \<^verbatim>\<open>OK\<close> and puts a newly constructed
  mapper of the matching class in the slot, whatever the slot held; any other pin type
  returns \<^verbatim>\<open>INVALID_VALUE\<close>. After any run of commands the slot holds the class of
  the last \<^verbatim>\<open>SET_PIN_TYPE\<close> for that pin that returned \<^verbatim>\<open>OK\<close>, or what it held before
  the run when there was none.
\<close>

theorem set_pin_type_constructs_mapper:
  assumes "processor_ok p" "0 \<le> i" "i < max_n_pins p"
  shows "apply_command M p (SetPinTypeCommand i t DIGITAL_INPUT)
           = (OK, p\<lparr> mappers := (mappers p)
                [nat i := Some (DigitalSensorMapper (new_DigitalSensorMapper M i))] \<rparr>)
       \<and> apply_command M p (SetPinTypeCommand i t ANALOG_INPUT)
           = (OK, p\<lparr> mappers := (mappers p)
                [nat i := Some (AnalogSensorMapper (new_AnalogSensorMapper M i))] \<rparr>)
       \<and> apply_command M p (SetPinTypeCommand i t IMU_INPUT)
           = (OK, p\<lparr> mappers := (mappers p)
                [nat i := Some (ImuMapper (new_ImuMapper M i))] \<rparr>)
       \<and> (\<forall>pt k. kind_for pt = Some k \<longrightarrow>
             slot_kind (snd (apply_command M p (SetPinTypeCommand i t pt))) i = Some k)
       \<and> (\<forall>pt. kind_for pt = None \<longrightarrow>
             fst (apply_command M p (SetPinTypeCommand i t pt)) = INVALID_VALUE)
       \<and> (\<forall>cs. slot_kind (apply_commands M p cs) i
                  = (case last_set_pin_type M p i cs None of
                       None \<Rightarrow> slot_kind p i
                     | Some pt \<Rightarrow> kind_for pt))"
proof -
  from assms have r: "0 \<le> i" "i \<le> max_n_pins p - 1" by simp_all
  from assms have len: "nat i < length (mappers p)" by (simp add: processor_ok_def)
  have kinds: "slot_kind (snd (apply_command M p (SetPinTypeCommand i t pt))) i = Some k"
    if "kind_for pt = Some k" for pt k
    using that len by (cases pt) (simp_all add: apply_command_set_pin_type [OF r] slot_kind_def)
  have invalid: "fst (apply_command M p (SetPinTypeCommand i t pt)) = INVALID_VALUE"
    if "kind_for pt = None" for pt
    using that by (cases pt) (simp_all add: apply_command_set_pin_type [OF r])
  have run: "slot_kind (apply_commands M p cs) i
               = (case last_set_pin_type M p i cs None of
                    None \<Rightarrow> slot_kind p i | Some pt \<Rightarrow> kind_for pt)" for cs
    using assms by (rule slot_kind_run) simp
  show ?thesis
    using kinds invalid run by (simp add: apply_command_set_pin_type [OF r])
qed

theorem set_pin_type_constructs_mapper_witness:
  "processor_ok example_processor
   \<and> fst (apply_command unit_mappers example_processor (SetPinTypeCommand 2 0 IMU_INPUT)) = OK
   \<and> slot_kind (snd (apply_command unit_mappers example_processor
                        (SetPinTypeCommand 2 0 IMU_INPUT))) 2 = Some Imu
   \<and> fst (apply_command unit_mappers example_processor (SetPinTypeCommand 2 0 DISABLED))
       = INVALID_VALUE
   \<and> slot_kind (apply_commands unit_mappers example_processor example_commands) 2 = Some Analog"
proof -
  have r: "(0::int) \<le> 2" "2 < max_n_pins example_processor"
    by (simp_all add: example_processor_def)
  note th = set_pin_type_constructs_mapper [OF example_processor_ok r, of unit_mappers 0]
  have last: "last_set_pin_type unit_mappers example_processor 2 example_commands None
              = Some ANALOG_INPUT"
    by code_simp
  from th have run: "slot_kind (apply_commands unit_mappers example_processor example_commands) 2
        = (case last_set_pin_type unit_mappers example_processor 2 example_commands None of
             None \<Rightarrow> slot_kind example_processor 2 | Some pt \<Rightarrow> kind_for pt)"
    by blast
  from th have kinds: "kind_for IMU_INPUT = Some Imu \<longrightarrow>
      slot_kind (snd (apply_command unit_mappers example_processor
                        (SetPinTypeCommand 2 0 IMU_INPUT))) 2 = Some Imu"
    by blast
  from th have invalid: "kind_for DISABLED = None \<longrightarrow>
      fst (apply_command unit_mappers example_processor (SetPinTypeCommand 2 0 DISABLED))
       = INVALID_VALUE"
    by blast
  from th have ok: "fst (apply_command unit_mappers example_processor
                           (SetPinTypeCommand 2 0 IMU_INPUT)) = OK"
    by simp
  from run last kinds invalid ok example_processor_ok show ?thesis
    by simp
qed

text \<open>
  C6. \<^verbatim>\<open>apply_command\<close> returns \<^verbatim>\<open>INVALID_PIN_INDEX\<close> for every command whose index
  is below 0 or above \<open>max_n_pins - 1\<close>, whatever its tag: so for the indices \<open>-1\<close>,
  \<open>max_n_pins\<close> and \<open>max_n_pins + 1\<close>. For an index in range, a command other than
  \<^verbatim>\<open>SET_PIN_TYPE\<close> on a slot that holds no mapper returns \<^verbatim>\<open>UNINITIALIZED_PIN\<close>.
\<close>

theorem apply_command_index_errors:
  "(index c < 0 \<or> max_n_pins p - 1 < index c
      \<longrightarrow> fst (apply_command M p c) = INVALID_PIN_INDEX)
   \<and> (index c = - 1 \<or> index c = max_n_pins p \<or> index c = max_n_pins p + 1
      \<longrightarrow> fst (apply_command M p c) = INVALID_PIN_INDEX)
   \<and> (0 \<le> index c \<and> index c \<le> max_n_pins p - 1 \<and> tag c \<noteq> SET_PIN_TYPE
        \<and> mappers p ! nat (index c) = None
      \<longrightarrow> fst (apply_command M p c) = UNINITIALIZED_PIN)"
proof (intro conjI impI)
  assume "index c < 0 \<or> max_n_pins p - 1 < index c"
  then show "fst (apply_command M p c) = INVALID_PIN_INDEX"
    by (simp add: apply_command_out_of_range)
next
  assume "index c = - 1 \<or> index c = max_n_pins p \<or> index c = max_n_pins p + 1"
  then have "index c < 0 \<or> index c > max_n_pins p - 1" by arith
  then show "fst (apply_command M p c) = INVALID_PIN_INDEX"
    by (simp add: apply_command_out_of_range)
next
  assume "0 \<le> index c \<and> index c \<le> max_n_pins p - 1 \<and> tag c \<noteq> SET_PIN_TYPE
        \<and> mappers p ! nat (index c) = None"
  then show "fst (apply_command M p c) = UNINITIALIZED_PIN"
    by (simp add: apply_command_delegates)
qed

theorem apply_command_index_errors_witness:
  "fst (apply_command unit_mappers example_processor (SetPinTypeCommand (- 1) 0 ANALOG_INPUT))
     = INVALID_PIN_INDEX
   \<and> fst (apply_command unit_mappers example_processor (SetSendingModeCommand 4 0 CONTINUOUS))
     = INVALID_PIN_INDEX
   \<and> fst (apply_command unit_mappers example_processor (SetInvertEnabledCommand 5 0 True))
     = INVALID_PIN_INDEX
   \<and> fst (apply_command unit_mappers example_processor (SetSendingModeCommand 3 0 CONTINUOUS))
     = UNINITIALIZED_PIN"
  using apply_command_index_errors
          [of "SetPinTypeCommand (- 1) 0 ANALOG_INPUT" example_processor unit_mappers]
        apply_command_index_errors
          [of "SetSendingModeCommand 4 0 CONTINUOUS" example_processor unit_mappers]
        apply_command_index_errors
          [of "SetInvertEnabledCommand 5 0 True" example_processor unit_mappers]
        apply_command_index_errors
          [of "SetSendingModeCommand 3 0 CONTINUOUS" example_processor unit_mappers]
  by (simp add: example_processor_def)

text \<open>
  C9. On its own three errors \<^verbatim>\<open>apply_command\<close> leaves the processor, and so every
  slot of the mapper array, as it was: for an index out of range, for \<^verbatim>\<open>SET_PIN_TYPE\<close>
  returning \<^verbatim>\<open>INVALID_VALUE\<close>, and for another command on an empty slot. As long as
  the mappers themselves never return \<^verbatim>\<open>INVALID_PIN_INDEX\<close> or \<^verbatim>\<open>UNINITIALIZED_PIN\<close>,
  these two results alone tell that nothing changed.
\<close>

theorem apply_command_errors_leave_mappers:
  "(index c < 0 \<or> max_n_pins p - 1 < index c \<longrightarrow> snd (apply_command M p c) = p)
   \<and> (tag c = SET_PIN_TYPE \<and> fst (apply_command M p c) = INVALID_VALUE
        \<longrightarrow> snd (apply_command M p c) = p)
   \<and> (0 \<le> index c \<and> index c \<le> max_n_pins p - 1 \<and> tag c \<noteq> SET_PIN_TYPE
        \<and> mappers p ! nat (index c) = None
        \<longrightarrow> snd (apply_command M p c) = p)
   \<and> ((\<forall>m c'. fst (mapper_apply_command M m c') \<noteq> INVALID_PIN_INDEX
               \<and> fst (mapper_apply_command M m c') \<noteq> UNINITIALIZED_PIN)
        \<and> (fst (apply_command M p c) = INVALID_PIN_INDEX
             \<or> fst (apply_command M p c) = UNINITIALIZED_PIN)
        \<longrightarrow> snd (apply_command M p c) = p)"
proof (intro conjI impI)
  assume "index c < 0 \<or> max_n_pins p - 1 < index c"
  then show "snd (apply_command M p c) = p"
    by (simp add: apply_command_out_of_range)
next
  assume a: "tag c = SET_PIN_TYPE \<and> fst (apply_command M p c) = INVALID_VALUE"
  then obtain i t pt where c: "c = SetPinTypeCommand i t pt"
    by (auto simp: tag_set_pin_type)
  show "snd (apply_command M p c) = p"
  proof (cases "i < 0 \<or> max_n_pins p - 1 < i")
    case True
    with c show ?thesis by (simp add: apply_command_out_of_range)
  next
    case False
    with a c show ?thesis
      by (cases pt) (simp_all add: apply_command_set_pin_type)
  qed
next
  assume "0 \<le> index c \<and> index c \<le> max_n_pins p - 1 \<and> tag c \<noteq> SET_PIN_TYPE
        \<and> mappers p ! nat (index c) = None"
  then show "snd (apply_command M p c) = p"
    by (simp add: apply_command_delegates)
next
  assume a: "(\<forall>m c'. fst (mapper_apply_command M m c') \<noteq> INVALID_PIN_INDEX
               \<and> fst (mapper_apply_command M m c') \<noteq> UNINITIALIZED_PIN)
        \<and> (fst (apply_command M p c) = INVALID_PIN_INDEX
             \<or> fst (apply_command M p c) = UNINITIALIZED_PIN)"
  show "snd (apply_command M p c) = p"
  proof (cases "index c < 0 \<or> max_n_pins p - 1 < index c")
    case True
    then show ?thesis by (simp add: apply_command_out_of_range)
  next
    case range: False
    show ?thesis
    proof (cases "tag c = SET_PIN_TYPE")
      case True
      then obtain i t pt where c: "c = SetPinTypeCommand i t pt"
        by (auto simp: tag_set_pin_type)
      with a range show ?thesis
        by (cases pt) (simp_all add: apply_command_set_pin_type)
    next
      case False
      show ?thesis
      proof (cases "mappers p ! nat (index c)")
        case None
        with False range show ?thesis by (simp add: apply_command_delegates)
      next
        case (Some m)
        with False range have "fst (apply_command M p c) = fst (mapper_apply_command M m c)"
          by (simp add: apply_command_delegates)
        with a show ?thesis by metis
      qed
    qed
  qed
qed

theorem apply_command_errors_leave_mappers_witness:
  "snd (apply_command unit_mappers example_configured (SetPinTypeCommand 4 0 DIGITAL_INPUT))
     = example_configured
   \<and> snd (apply_command unit_mappers example_configured (SetPinTypeCommand 2 0 DISABLED))
     = example_configured
   \<and> snd (apply_command unit_mappers example_configured (SetSendingModeCommand 3 0 ON_PRESS))
     = example_configured
   \<and> fst (apply_command unit_mappers example_configured (SetSendingModeCommand 0 0 ON_PRESS))
     = UNINITIALIZED_PIN
   \<and> snd (apply_command unit_mappers example_configured (SetSendingModeCommand 0 0 ON_PRESS))
     = example_configured"
proof -
  have m: "\<forall>m c'. fst (mapper_apply_command unit_mappers m c') \<noteq> INVALID_PIN_INDEX
               \<and> fst (mapper_apply_command unit_mappers m c') \<noteq> UNINITIALIZED_PIN"
  proof (intro allI)
    fix m :: "unit BaseSensorMapper" and c'
    show "fst (mapper_apply_command unit_mappers m c') \<noteq> INVALID_PIN_INDEX
               \<and> fst (mapper_apply_command unit_mappers m c') \<noteq> UNINITIALIZED_PIN"
      by (cases m) (simp_all add: unit_mappers_def)
  qed
  have u: "fst (apply_command unit_mappers example_configured (SetSendingModeCommand 0 0 ON_PRESS))
     = UNINITIALIZED_PIN"
    by (simp add: apply_command_def example_configured_def)
  have v: "fst (apply_command unit_mappers example_configured (SetPinTypeCommand 2 0 DISABLED))
     = INVALID_VALUE"
    by (simp add: apply_command_def example_configured_def)
  have r: "max_n_pins example_configured = 4" "mappers example_configured ! 3 = None"
    by (simp_all add: example_configured_def)
  show ?thesis
    using apply_command_errors_leave_mappers
            [of "SetPinTypeCommand 4 0 DIGITAL_INPUT" example_configured unit_mappers]
          apply_command_errors_leave_mappers
            [of "SetPinTypeCommand 2 0 DISABLED" example_configured unit_mappers]
          apply_command_errors_leave_mappers
            [of "SetSendingModeCommand 3 0 ON_PRESS" example_configured unit_mappers]
          apply_command_errors_leave_mappers
            [of "SetSendingModeCommand 0 0 ON_PRESS" example_configured unit_mappers]
          m u v r
    by simp
qed

subsection \<open>The reader\<close>

lemma read_loop_iteration_muted:
  assumes "muted this" "ret \<ge> SENSEI_LENGTH_DATA_PACKET"
  shows "out_queue (read_loop_iteration P this ret buffer)
         = out_queue this
           @ (case create_internal_message P (packet_of_buffer buffer) of
                None \<Rightarrow> [] | Some m \<Rightarrow> [m])"
  using assms by (simp add: read_loop_iteration_def Let_def split: option.split)

text \<open>
  C3. With the frontend muted, the read loop pushes a message for a corrupt packet and
  for a valid one: the mute flag only turns the verification off. Without the mute the
  corrupt packet is dropped.
\<close>

theorem muted_read_loop_pushes_messages:
  "muted (mute True test_frontend)
   \<and> \<not> verify_message (packet_of_buffer corrupt_value_msg)
   \<and> verify_message (packet_of_buffer value_msg)
   \<and> out_queue (read_loop example_protocol (mute True test_frontend)
                  [(64, corrupt_value_msg), (64, value_msg)])
       = [AnalogValue 12 35 1234, AnalogValue 12 35 1234]
   \<and> out_queue (read_loop example_protocol test_frontend
                  [(64, corrupt_value_msg), (64, value_msg)])
       = [AnalogValue 12 35 1234]"
  by code_simp

text \<open>
  C4. The value message carries the \<^verbatim>\<open>pin_id\<close> of the wire packet as it is: with
  \<^verbatim>\<open>_pin_to_id_table[12] = 10\<close>, the analog value packet of the unit test (pin 12, value
  35, timestamp 1234) gives an \<^verbatim>\<open>AnalogValue\<close> with index 12, and for no command byte and
  no choice of the protocol codes one with index 10.
\<close>

theorem value_message_carries_raw_pin_id:
  "pin_to_id_table test_frontend 12 = 10
   \<and> out_queue (read_loop_iteration example_protocol test_frontend 64 value_msg)
       = [AnalogValue 12 35 1234]
   \<and> create_internal_message example_protocol (value_packet (GET_VALUE example_protocol))
       = Some (AnalogValue 12 35 1234)
   \<and> (\<forall>P c. create_internal_message P (value_packet c) \<noteq> Some (AnalogValue 10 35 1234))"
proof (intro conjI allI)
  show "pin_to_id_table test_frontend 12 = 10"
    by (simp add: test_frontend_def)
  show "out_queue (read_loop_iteration example_protocol test_frontend 64 value_msg)
          = [AnalogValue 12 35 1234]"
    by code_simp
  show "create_internal_message example_protocol (value_packet (GET_VALUE example_protocol))
          = Some (AnalogValue 12 35 1234)"
    by code_simp
  show "create_internal_message P (value_packet c) \<noteq> Some (AnalogValue 10 35 1234)" for P c
    by (simp add: create_internal_message_def Let_def value_packet_def teensy_value_msg_of_def
             teensy_value_msg_bytes_def bytes_u16_def u16_of_bytes_def)
qed

subsection \<open>The writer\<close>

lemma create_send_command_None:
  "create_send_command F c = None \<longleftrightarrow> \<not> handled_tag (tag c)"
  by (cases c) (simp_all add: create_send_command_def)

lemma create_send_command_None':
  "None = create_send_command F c \<longleftrightarrow> \<not> handled_tag (tag c)"
  using create_send_command_None [of F c] by auto

lemma write_loop_iteration_state:
  "write_thread_state (write_loop_iteration F this) = write_thread_state this"
  by (simp add: write_loop_iteration_def Let_def split: list.split)

lemma write_loop_iteration_queue:
  "in_queue (write_loop_iteration F this) = tl (in_queue this)"
  by (simp add: write_loop_iteration_def Let_def split: list.split)

lemma write_loop_iteration_writes:
  "port_writes (write_loop_iteration F this)
   = port_writes this @ map (create_send_command F) (take 1 (in_queue this))"
  by (simp add: write_loop_iteration_def Let_def split: list.split)

lemma take_Suc_tl: "take (Suc n) xs = take 1 xs @ take n (tl xs)"
  by (cases xs) simp_all

lemma write_loop_writes:
  "write_thread_state this = RUNNING \<Longrightarrow>
   port_writes (write_loop F this n)
   = port_writes this @ map (create_send_command F) (take n (in_queue this))"
proof (induction n arbitrary: this)
  case 0
  then show ?case by simp
next
  case (Suc n)
  have "write_thread_state (write_loop_iteration F this) = RUNNING"
    using Suc.prems by (simp add: write_loop_iteration_state)
  then have "port_writes (write_loop F (write_loop_iteration F this) n)
             = port_writes (write_loop_iteration F this)
               @ map (create_send_command F) (take n (in_queue (write_loop_iteration F this)))"
    by (rule Suc.IH)
  then show ?case
    using Suc.prems
    by (simp add: write_loop_iteration_writes write_loop_iteration_queue take_Suc_tl [of n])
qed

text \<open>
  C10. \<^verbatim>\<open>create_send_command\<close> returns a null pointer exactly for the commands whose
  tag is none of the nine. A turn of \<^verbatim>\<open>write_loop\<close> hands the returned pointer to the
  port write as it is, so over \<open>n\<close> turns no null pointer reaches the port exactly when
  each of the commands popped has one of the nine tags.
\<close>

theorem create_send_command_null_unchecked:
  "(create_send_command F c = None \<longleftrightarrow> \<not> handled_tag (tag c))
   \<and> (in_queue this = c # q \<longrightarrow>
        write_loop_iteration F this
        = this\<lparr> in_queue := q, port_writes := port_writes this @ [create_send_command F c] \<rparr>)
   \<and> (write_thread_state this = RUNNING \<and> None \<notin> set (port_writes this) \<longrightarrow>
        (None \<notin> set (port_writes (write_loop F this n))
         \<longleftrightarrow> (\<forall>c' \<in> set (take n (in_queue this)). handled_tag (tag c'))))"
proof (intro conjI impI)
  show "create_send_command F c = None \<longleftrightarrow> \<not> handled_tag (tag c)"
    by (rule create_send_command_None)
next
  assume "in_queue this = c # q"
  then show "write_loop_iteration F this
        = this\<lparr> in_queue := q, port_writes := port_writes this @ [create_send_command F c] \<rparr>"
    by (simp add: write_loop_iteration_def)
next
  assume a: "write_thread_state this = RUNNING \<and> None \<notin> set (port_writes this)"
  then have "port_writes (write_loop F this n)
             = port_writes this @ map (create_send_command F) (take n (in_queue this))"
    by (simp add: write_loop_writes)
  with a show "None \<notin> set (port_writes (write_loop F this n))
         \<longleftrightarrow> (\<forall>c' \<in> set (take n (in_queue this)). handled_tag (tag c'))"
    by (auto simp: create_send_command_None')
qed

theorem create_send_command_null_unchecked_witness:
  "create_send_command example_factory (SetInvertEnabledCommand 1 1 True) = None
   \<and> port_writes (write_loop_iteration example_factory
                    (test_frontend\<lparr> in_queue := [SetInvertEnabledCommand 1 1 True] \<rparr>)) = [None]
   \<and> None \<in> set (port_writes (write_loop example_factory
                                 (test_frontend\<lparr> in_queue := example_queue \<rparr>) 2))"
proof -
  let ?c = "SetInvertEnabledCommand 1 1 True"
  let ?one = "test_frontend\<lparr> in_queue := [?c] \<rparr>"
  let ?two = "test_frontend\<lparr> in_queue := example_queue \<rparr>"
  note one = create_send_command_null_unchecked [of example_factory ?c ?one "[]" 1]
  note two = create_send_command_null_unchecked [of example_factory ?c ?two "[]" 2]
  have null: "create_send_command example_factory ?c = None"
    using one by simp
  have "write_loop_iteration example_factory ?one
        = ?one\<lparr> in_queue := [],
                port_writes := port_writes ?one @ [create_send_command example_factory ?c] \<rparr>"
    using one by simp
  then have w: "port_writes (write_loop_iteration example_factory ?one) = [None]"
    using null by (simp add: test_frontend_def)
  have "write_thread_state ?two = RUNNING \<and> None \<notin> set (port_writes ?two)"
    by (simp add: test_frontend_def)
  moreover have "\<not> (\<forall>c' \<in> set (take 2 (in_queue ?two)). handled_tag (tag c'))"
    by (simp add: example_queue_def)
  ultimately have "None \<in> set (port_writes (write_loop example_factory ?two 2))"
    using two by blast
  with null w show ?thesis by simp
qed

subsection \<open>The event handler\<close>

lemma reload_config_fields:
  "event_queue (reload_config E h)
     = event_queue h @ map CommandMessage (snd (parse E (config_backend h)))"
  "processor (reload_config E h) = processor h"
  "to_frontend_queue (reload_config E h) = to_frontend_queue h"
  by (simp_all add: reload_config_def read_def split: prod.split)

lemma handle_internal_fields:
  "processor (handle_internal E h c) = processor h"
  "to_frontend_queue (handle_internal E h c) = to_frontend_queue h"
  by (cases c; simp add: reload_config_fields)+

lemma handle_command_processor:
  "processor (handle_command E h c)
   = (if target E c = MAPPING then snd (apply_command (mapper_impl E) (processor h) c)
      else processor h)"
  by (simp add: handle_command_def handle_internal_fields
           split: CommandTarget.split prod.split)

lemma handle_command_to_frontend:
  "to_frontend_queue (handle_command E h c)
   = (if target E c = HW_FRONTEND then to_frontend_queue h @ [c] else to_frontend_queue h)"
  by (simp add: handle_command_def handle_internal_fields
           split: CommandTarget.split prod.split)

lemma fold_commands_processor:
  "processor (fold (handle_message E) (map CommandMessage cs) h)
   = apply_commands (mapper_impl E) (processor h) (filter (\<lambda>c. target E c = MAPPING) cs)"
  by (induction cs arbitrary: h) (simp_all add: handle_command_processor)

lemma fold_commands_to_frontend:
  "to_frontend_queue (fold (handle_message E) (map CommandMessage cs) h)
   = to_frontend_queue h @ filter (\<lambda>c. target E c = HW_FRONTEND) cs"
  by (induction cs arbitrary: h) (simp_all add: handle_command_to_frontend)

lemma handle_events_reload_config:
  "handle_events E (reload_config E h)
   = fold (handle_message E) (map CommandMessage (snd (parse E (config_backend h))))
       (handle_events E h)"
  by (simp add: handle_events_def reload_config_def read_def split: prod.split)

text \<open>
  C8. \<^verbatim>\<open>reload_config\<close> has the configuration backend read its source again, which
  puts the commands of the configuration on the event queue in their order, behind what
  is queued; only the \<^verbatim>\<open>HwFrontendConfig\<close> is dropped. The next \<^verbatim>\<open>handle_events\<close>,
  once it has handled what was queued before, applies those for the mapping processor to
  it, in order, and appends those for the hardware frontend to the to-frontend queue, in
  order.
\<close>

theorem reload_config_replays_commands:
  "event_queue (reload_config E h)
     = event_queue h @ map CommandMessage (snd (parse E (config_backend h)))
   \<and> processor (handle_events E (reload_config E h))
       = apply_commands (mapper_impl E) (processor (handle_events E h))
           (filter (\<lambda>c. target E c = MAPPING) (snd (parse E (config_backend h))))
   \<and> to_frontend_queue (handle_events E (reload_config E h))
       = to_frontend_queue (handle_events E h)
         @ filter (\<lambda>c. target E c = HW_FRONTEND) (snd (parse E (config_backend h)))"
  by (simp add: handle_events_reload_config reload_config_fields fold_commands_processor
           fold_commands_to_frontend)

theorem reload_config_replays_commands_witness:
  "event_queue (reload_config example_parts example_handler)
     = map CommandMessage example_commands
   \<and> slot_kind (processor (handle_events example_parts
                              (reload_config example_parts example_handler))) 2 = Some Analog
   \<and> to_frontend_queue (handle_events example_parts
                           (reload_config example_parts example_handler))
       = [SetSendingModeCommand 2 3 CONTINUOUS]"
proof -
  note th = reload_config_replays_commands [of example_parts example_handler]
  have idle: "handle_events example_parts example_handler = example_handler"
    by (simp add: handle_events_def example_handler_def)
  have queue: "event_queue example_handler = []"
    by (simp add: example_handler_def)
  have src: "snd (parse example_parts (config_backend example_handler)) = example_commands"
    by (simp add: example_parts_def example_handler_def)
  have "slot_kind (apply_commands (mapper_impl example_parts) (processor example_handler)
          (filter (\<lambda>c. target example_parts c = MAPPING) example_commands)) 2 = Some Analog"
    by code_simp
  moreover have "to_frontend_queue example_handler
          @ filter (\<lambda>c. target example_parts c = HW_FRONTEND) example_commands
        = [SetSendingModeCommand 2 3 CONTINUOUS]"
    by code_simp
  ultimately show ?thesis
    using th idle queue src by simp
qed

end
